theory Spec2Isabelle
  imports Complex_Main
begin

section \<open>Data model of the watchlist alert engine\<close>

text \<open>
  The embedded code is the watchlist module of \<^verbatim>\<open>src/app/static/script.js\<close>:
  the classes \<^verbatim>\<open>WatchlistManager\<close> and \<^verbatim>\<open>WatchlistPolling\<close>.
  JavaScript objects become records, the arrays become lists, and the numbers of a
  quote and of a threshold become reals: the code only compares them, and on finite
  numbers the comparisons of JavaScript agree with the order of the reals. A quote is
  taken to carry a number in each field the code reads, and a rule a number as its
  threshold (\<^verbatim>\<open>NaN\<close> and \<^verbatim>\<open>null\<close> are outside the model).
\<close>

text \<open>An alert rule \<^verbatim>\<open>{type, value, enabled}\<close>.\<close>

record alert =
  alert_type :: string
  alert_value :: real
  alert_enabled :: bool

text \<open>
  A watch item, as \<^verbatim>\<open>WatchlistManager.add\<close> builds it. The field \<^verbatim>\<open>id\<close>
  is named \<open>item_id\<close> here.
\<close>

record item =
  item_id :: string
  stock_code :: string
  stock_name :: string
  alerts :: "alert list"
  triggered :: "string list"
  created_at :: string

text \<open>
  A stock object: the selected stock \<^verbatim>\<open>{code, name}\<close> handed to \<^verbatim>\<open>add\<close>, and an
  entry of the array answered by \<^verbatim>\<open>/api/watchlist/check\<close>, of which the code reads
  \<^verbatim>\<open>code\<close>, \<^verbatim>\<open>price\<close>, \<^verbatim>\<open>change_percent\<close> and \<^verbatim>\<open>bid_ask_ratio\<close>.
\<close>

record stock =
  code :: string
  name :: string
  price :: real
  change_percent :: real
  bid_ask_ratio :: real

text \<open>
  One call of \<^verbatim>\<open>notify(item.stock_name, alert, actualValue, stock)\<close>, recorded
  together with the index of the loop iteration that made the call.
\<close>

record notification =
  n_index :: nat
  n_stockName :: string
  n_alert :: alert
  n_actualValue :: "real option"
  n_stock :: stock

section \<open>The trigger key\<close>

text \<open>
  The template literal \<^verbatim>\<open>`${alert.type}_${index}`\<close>: the index of an array
  element is a natural number, printed in decimal without leading zeros.
\<close>

definition digit :: "nat \<Rightarrow> char" where
  "digit n = char_of (48 + n)"

fun dec :: "nat \<Rightarrow> string" where
  "dec n = (if n < 10 then [digit n] else dec (n div 10) @ [digit (n mod 10)])"

declare dec.simps [simp del]

definition alertKey :: "string \<Rightarrow> nat \<Rightarrow> string" where
  "alertKey t index = t @ ''_'' @ dec index"

section \<open>WatchlistPolling.checkAlerts\<close>

text \<open>
  The \<^verbatim>\<open>switch (alert.type)\<close>: the pair of \<^verbatim>\<open>triggered\<close> and \<^verbatim>\<open>actualValue\<close>.
  The switch has no default case, so any other type leaves \<^verbatim>\<open>false\<close> and \<^verbatim>\<open>null\<close>.
\<close>

definition switch_type :: "alert \<Rightarrow> stock \<Rightarrow> bool \<times> real option" where
  "switch_type a s =
    (if alert_type a = ''price_above'' then (price s \<ge> alert_value a, Some (price s))
     else if alert_type a = ''price_below'' then (price s \<le> alert_value a, Some (price s))
     else if alert_type a = ''change_percent_above''
       then (change_percent s \<ge> alert_value a, Some (change_percent s))
     else if alert_type a = ''change_percent_below''
       then (change_percent s \<le> alert_value a, Some (change_percent s))
     else if alert_type a = ''bid_ask_ratio_above''
       then (bid_ask_ratio s \<ge> alert_value a, Some (bid_ask_ratio s))
     else (False, None))"

text \<open>
  \<^verbatim>\<open>notify\<close> builds the title and the body, logs them, and then reads
  \<^verbatim>\<open>Notification.permission\<close> and, when it is granted, calls
  \<^verbatim>\<open>new Notification(...)\<close>. Neither is inside a \<^verbatim>\<open>try\<close> (only the sound is), so
  a browser without the notification interface, or one whose constructor is illegal
  on a page, makes \<^verbatim>\<open>notify\<close> throw. Whether a call throws is decided by the
  environment: a predicate on the call, \<open>True\<close> where it throws.

  An evaluation returns the state it has reached, the calls of \<^verbatim>\<open>notify\<close> it has
  made, in order, and whether it was left by an exception. When it was, the last call
  is the one that threw.
\<close>

record 'a evaluated =
  result :: 'a
  calls :: "notification list"
  thrown :: bool

text \<open>
  The body of \<^verbatim>\<open>item.alerts.forEach((alert, index) => ...)\<close>, run from \<open>index\<close>
  over the remaining alerts. The state is \<^verbatim>\<open>item.triggered\<close>. \<^verbatim>\<open>notify\<close> is called
  before \<^verbatim>\<open>item.triggered.push(alertKey)\<close>: when it throws, the key is not pushed and
  the remaining alerts are not visited.
\<close>

fun checkAlerts_loop ::
  "(notification \<Rightarrow> bool) \<Rightarrow> string \<Rightarrow> stock \<Rightarrow> nat \<Rightarrow> alert list \<Rightarrow> string list
    \<Rightarrow> string list evaluated"
where
  "checkAlerts_loop thr nm s index [] trig = \<lparr>result = trig, calls = [], thrown = False\<rparr>"
| "checkAlerts_loop thr nm s index (a # as) trig =
    (if \<not> alert_enabled a then checkAlerts_loop thr nm s (Suc index) as trig
     else if alertKey (alert_type a) index \<in> set trig
       then checkAlerts_loop thr nm s (Suc index) as trig
     else if fst (switch_type a s)
       then (let n = \<lparr>n_index = index, n_stockName = nm, n_alert = a,
                       n_actualValue = snd (switch_type a s), n_stock = s\<rparr>
             in if thr n then \<lparr>result = trig, calls = [n], thrown = True\<rparr>
                else (let r = checkAlerts_loop thr nm s (Suc index) as
                                (trig @ [alertKey (alert_type a) index])
                      in r\<lparr>calls := n # calls r\<rparr>))
     else checkAlerts_loop thr nm s (Suc index) as trig)"

definition checkAlerts :: "(notification \<Rightarrow> bool) \<Rightarrow> item \<Rightarrow> stock \<Rightarrow> item evaluated" where
  "checkAlerts thr it s =
    (let r = checkAlerts_loop thr (stock_name it) s 0 (alerts it) (triggered it)
     in \<lparr>result = it\<lparr>triggered := result r\<rparr>, calls = calls r, thrown = thrown r\<rparr>)"

text \<open>
  The quotes of one poll, as the callback of \<^verbatim>\<open>stocks.forEach\<close> handles one of them:
  \<^verbatim>\<open>watchlist.filter(w => w.stock_code === stock.code)\<close> selects the matching items
  and \<^verbatim>\<open>checkAlerts\<close> mutates each of them in place. The items are shared with the
  watchlist array, so the pass replaces every matching item of the array by its
  evaluated version and leaves the others as they are. An exception leaves both
  loops: the items and the quotes after it are not visited.
\<close>

fun check_items :: "(notification \<Rightarrow> bool) \<Rightarrow> item list \<Rightarrow> stock \<Rightarrow> item list evaluated" where
  "check_items thr [] s = \<lparr>result = [], calls = [], thrown = False\<rparr>"
| "check_items thr (w # ws) s =
    (if stock_code w = code s
     then (let r = checkAlerts thr w s
           in if thrown r then \<lparr>result = result r # ws, calls = calls r, thrown = True\<rparr>
              else (let r' = check_items thr ws s
                    in \<lparr>result = result r # result r', calls = calls r @ calls r',
                        thrown = thrown r'\<rparr>))
     else (let r' = check_items thr ws s in r'\<lparr>result := w # result r'\<rparr>))"

fun check_stocks ::
  "(notification \<Rightarrow> bool) \<Rightarrow> item list \<Rightarrow> stock list \<Rightarrow> item list evaluated"
where
  "check_stocks thr wl [] = \<lparr>result = wl, calls = [], thrown = False\<rparr>"
| "check_stocks thr wl (s # ss) =
    (let r = check_items thr wl s
     in if thrown r then r
        else (let r' = check_stocks thr (result r) ss
              in r'\<lparr>calls := calls r @ calls r'\<rparr>))"

section \<open>WatchlistManager\<close>

text \<open>
  The manager's state is the array \<^verbatim>\<open>this.watchlist\<close>; \<^verbatim>\<open>getAll\<close> returns
  this array itself. The calls of \<^verbatim>\<open>save\<close> write it to local storage and catch
  every exception; they do not change the array.
  The error names are the ones of the specification's taxonomy; no method of the class
  has a \<^verbatim>\<open>throw\<close>.
\<close>

datatype error = EmptyRuleSetError | NotFoundError

text \<open>
  \<^verbatim>\<open>add(stock, alerts)\<close>. \<^verbatim>\<open>Date.now()\<close>, the random suffix of the id and the ISO
  time stamp are supplied by the environment. \<^verbatim>\<open>alerts || []\<close> replaces a missing
  argument (\<open>None\<close>) by the empty array; an array, also an empty one, is kept.
\<close>

definition add ::
  "item list \<Rightarrow> stock \<Rightarrow> alert list option \<Rightarrow> nat \<Rightarrow> string \<Rightarrow> string
    \<Rightarrow> error + (item \<times> item list)"
where
  "add wl st al now_ms rnd ts =
    (let it = \<lparr>item_id = ''watch_'' @ dec now_ms @ ''_'' @ rnd,
               stock_code = code st,
               stock_name = name st,
               alerts = (case al of None \<Rightarrow> [] | Some a \<Rightarrow> a),
               triggered = [],
               created_at = ts\<rparr>
     in Inr (it, wl @ [it]))"

definition remove :: "item list \<Rightarrow> string \<Rightarrow> item list" where
  "remove wl i = filter (\<lambda>w. item_id w \<noteq> i) wl"

text \<open>\<^verbatim>\<open>update\<close> changes the first item that \<^verbatim>\<open>find\<close> returns, if there is one.\<close>

fun update :: "item list \<Rightarrow> string \<Rightarrow> alert list \<Rightarrow> item list" where
  "update [] i al = []"
| "update (w # ws) i al =
    (if item_id w = i then w\<lparr>alerts := al\<rparr> # ws else w # update ws i al)"

definition get :: "item list \<Rightarrow> string \<Rightarrow> item option" where
  "get wl i = find (\<lambda>w. item_id w = i) wl"

definition resetTriggered :: "item list \<Rightarrow> item list" where
  "resetTriggered wl = map (\<lambda>w. w\<lparr>triggered := []\<rparr>) wl"

text \<open>
  The test of the watchlist card (\<^verbatim>\<open>createWatchlistCard\<close>) whether the rule at a
  position counts as fired: \<^verbatim>\<open>item.triggered.includes(`${alert.type}_${index}`)\<close>.
\<close>

definition fired :: "item \<Rightarrow> nat \<Rightarrow> bool" where
  "fired it i = (alertKey (alert_type (alerts it ! i)) i \<in> set (triggered it))"

section \<open>WatchlistPolling\<close>

text \<open>
  The readings of \<^verbatim>\<open>new Date()\<close>: \<^verbatim>\<open>getDay()\<close> (0 is Sunday), \<^verbatim>\<open>getHours()\<close>,
  \<^verbatim>\<open>getMinutes()\<close> and \<^verbatim>\<open>getSeconds()\<close>.
\<close>

record clock =
  day :: nat
  hour :: nat
  minute :: nat
  second :: nat

definition isMarketHours :: "clock \<Rightarrow> bool" where
  "isMarketHours now =
    (if day now \<ge> 1 \<and> day now \<le> 5
     then (if (hour now = 9 \<and> minute now \<ge> 0) \<or> (hour now \<ge> 10 \<and> hour now < 13)
              \<or> (hour now = 13 \<and> minute now \<le> 30)
           then True else False)
     else False)"

text \<open>
  The texts written by \<^verbatim>\<open>updateStatusDisplay\<close>: no items to monitor, outside market
  hours, running with the formatted time of the last check (hours and minutes), check
  failed, stopped.
\<close>

datatype status = NoItems | NonTrading | RunningAt nat nat | CheckFailed | Stopped

text \<open>
  What the two awaits of \<^verbatim>\<open>check\<close> can give: \<^verbatim>\<open>fetch\<close> rejects; \<^verbatim>\<open>response.json()\<close>
  rejects; the body is JSON but no array (an error object), so that \<^verbatim>\<open>stocks.forEach\<close>
  throws; or the body is an array of stock objects.
\<close>

datatype fetch_outcome = FetchRejected | JsonRejected | NotAnArray | Stocks "stock list"

text \<open>
  The poller with its manager's array. \<open>in_flight\<close> holds the code lists of the
  requests whose \<^verbatim>\<open>fetch\<close> has been called and has not settled yet, \<open>notified\<close>
  the calls of \<^verbatim>\<open>notify\<close> made so far; \<open>interval\<close> tells whether the interval
  timer is armed.
\<close>

record polling =
  watchlist :: "item list"
  interval :: bool
  isRunning :: bool
  lastCheckTime :: "clock option"
  display :: status
  in_flight :: "string list list"
  notified :: "notification list"

definition new_polling :: "item list \<Rightarrow> status \<Rightarrow> polling" where
  "new_polling wl d =
    \<lparr>watchlist = wl, interval = False, isRunning = False, lastCheckTime = None,
     display = d, in_flight = [], notified = []\<rparr>"

text \<open>\<^verbatim>\<open>check\<close> up to its first await: the request is issued, or there is nothing to do.\<close>

definition check_begin :: "polling \<Rightarrow> polling" where
  "check_begin p =
    (if length (watchlist p) = 0 then p\<lparr>display := NoItems\<rparr>
     else p\<lparr>in_flight := in_flight p @ [map stock_code (watchlist p)]\<rparr>)"

text \<open>
  \<^verbatim>\<open>check\<close> from the moment the request number \<open>k\<close> in flight settles. The
  \<^verbatim>\<open>catch\<close> block writes the failure text; when the body is no array, the time and
  the running text have been written before \<^verbatim>\<open>forEach\<close> throws, and so they have
  when a call of \<^verbatim>\<open>notify\<close> throws during the evaluation.
\<close>

definition check_settle ::
  "(notification \<Rightarrow> bool) \<Rightarrow> nat \<Rightarrow> fetch_outcome \<Rightarrow> clock \<Rightarrow> polling \<Rightarrow> polling"
where
  "check_settle thr k outcome now p =
    (let p1 = p\<lparr>in_flight := take k (in_flight p) @ drop (Suc k) (in_flight p)\<rparr>
     in case outcome of
          FetchRejected \<Rightarrow> p1\<lparr>display := CheckFailed\<rparr>
        | JsonRejected \<Rightarrow> p1\<lparr>display := CheckFailed\<rparr>
        | NotAnArray \<Rightarrow> p1\<lparr>lastCheckTime := Some now, display := CheckFailed\<rparr>
        | Stocks ss \<Rightarrow>
            (let r = check_stocks thr (watchlist p1) ss
             in p1\<lparr>lastCheckTime := Some now,
                   display := (if thrown r then CheckFailed
                               else RunningAt (hour now) (minute now)),
                   watchlist := result r,
                   notified := notified p1 @ calls r\<rparr>))"

text \<open>A whole call of \<^verbatim>\<open>check\<close>, with the outcome of the request it issues.\<close>

definition check ::
  "(notification \<Rightarrow> bool) \<Rightarrow> fetch_outcome \<Rightarrow> clock \<Rightarrow> polling \<Rightarrow> polling"
where
  "check thr outcome now p =
    (if length (watchlist p) = 0 then check_begin p
     else check_settle thr (length (in_flight p)) outcome now (check_begin p))"

definition start :: "polling \<Rightarrow> polling" where
  "start p =
    (if isRunning p then p
     else (check_begin (p\<lparr>isRunning := True\<rparr>))\<lparr>interval := True\<rparr>)"

text \<open>The callback of \<^verbatim>\<open>setInterval\<close>.\<close>

definition tick :: "clock \<Rightarrow> polling \<Rightarrow> polling" where
  "tick now p = (if isMarketHours now then check_begin p else p\<lparr>display := NonTrading\<rparr>)"

definition stop :: "polling \<Rightarrow> polling" where
  "stop p = p\<lparr>interval := False, isRunning := False, display := Stopped\<rparr>"

text \<open>
  The events of the single thread of control: a call of \<^verbatim>\<open>start\<close> or \<^verbatim>\<open>stop\<close>, a
  firing of the interval timer (only while it is armed), and the settling of a request
  in flight.
\<close>

datatype event =
  Start | Stop | Tick clock | Settle "notification \<Rightarrow> bool" nat fetch_outcome clock

fun step :: "polling \<Rightarrow> event \<Rightarrow> polling" where
  "step p Start = start p"
| "step p Stop = stop p"
| "step p (Tick now) = (if interval p then tick now p else p)"
| "step p (Settle thr k outcome now) =
    (if k < length (in_flight p) then check_settle thr k outcome now p else p)"

definition run :: "polling \<Rightarrow> event list \<Rightarrow> polling" where
  "run p evs = foldl step p evs"

section \<open>Sequences of operations on the watchlist\<close>

text \<open>
  The operations that change the manager's array: the four mutating methods, the
  evaluation of a whole answer of a poll, and a single call of \<^verbatim>\<open>checkAlerts\<close> on the
  item at a position (a poll whose array was captured before other operations ran
  evaluates some of the items only). A sequence starts from the empty watchlist of a
  manager with nothing in storage; what \<^verbatim>\<open>load\<close> reads back later is a watchlist
  that \<^verbatim>\<open>save\<close> wrote after one of these operations.
\<close>

datatype operation =
    Add stock "alert list option" nat string string
  | Update string "alert list"
  | Remove string
  | ResetTriggered
  | Poll "notification \<Rightarrow> bool" "stock list"
  | CheckAlerts "notification \<Rightarrow> bool" nat stock

fun apply_operation :: "item list \<Rightarrow> operation \<Rightarrow> item list" where
  "apply_operation wl (Add st al now_ms rnd ts) =
    (case add wl st al now_ms rnd ts of Inl e \<Rightarrow> wl | Inr r \<Rightarrow> snd r)"
| "apply_operation wl (Update i al) = update wl i al"
| "apply_operation wl (Remove i) = remove wl i"
| "apply_operation wl ResetTriggered = resetTriggered wl"
| "apply_operation wl (Poll thr ss) = result (check_stocks thr wl ss)"
| "apply_operation wl (CheckAlerts thr k s) =
    (if k < length wl then wl[k := result (checkAlerts thr (wl ! k) s)] else wl)"

definition apply_operations :: "operation list \<Rightarrow> item list" where
  "apply_operations ops = foldl apply_operation [] ops"

text \<open>Consecutive polls of one item: the calls of \<^verbatim>\<open>notify\<close> of each poll.\<close>

fun polls :: "(notification \<Rightarrow> bool) \<Rightarrow> item \<Rightarrow> stock list \<Rightarrow> notification list list" where
  "polls thr it [] = []"
| "polls thr it (q # qs) =
    calls (checkAlerts thr it q) # polls thr (result (checkAlerts thr it q)) qs"

text \<open>The key that \<^verbatim>\<open>checkAlerts\<close> pushes after a call of \<^verbatim>\<open>notify\<close> has returned.\<close>

definition n_key :: "notification \<Rightarrow> string" where
  "n_key n = alertKey (alert_type (n_alert n)) (n_index n)"

text \<open>The calls of \<^verbatim>\<open>notify\<close> that returned: all of them but a last one that threw.\<close>

definition returned :: "'a evaluated \<Rightarrow> notification list" where
  "returned r = (if thrown r then butlast (calls r) else calls r)"

section \<open>Trigger keys of different positions differ\<close>

lemma digit_neq_underscore: "n < 10 \<Longrightarrow> digit n \<noteq> CHR ''_''"
proof
  assume n: "n < 10" and e: "digit n = CHR ''_''"
  from e have "of_char (digit n) = (of_char (CHR ''_'') :: nat)" by simp
  with n show False by (simp add: digit_def)
qed

lemma digit_inj: "m < 10 \<Longrightarrow> n < 10 \<Longrightarrow> digit m = digit n \<Longrightarrow> m = n"
proof -
  assume m: "m < 10" and n: "n < 10" and e: "digit m = digit n"
  from e have "of_char (digit m) = (of_char (digit n) :: nat)" by simp
  with m n show "m = n" by (simp add: digit_def)
qed

lemma dec_no_underscore: "CHR ''_'' \<notin> set (dec n)"
proof (induction n rule: dec.induct)
  case (1 n)
  show ?case
  proof (cases "n < 10")
    case True
    then show ?thesis using digit_neq_underscore[of n] by (subst dec.simps) auto
  next
    case False
    then show ?thesis using 1 digit_neq_underscore[of "n mod 10"]
      by (subst dec.simps) auto
  qed
qed

lemma dec_nonempty: "dec n \<noteq> []"
  by (subst dec.simps) simp

lemma dec_inj: "dec m = dec n \<Longrightarrow> m = n"
proof (induction m arbitrary: n rule: dec.induct)
  case (1 m)
  show ?case
  proof (cases "m < 10")
    case mt: True
    show ?thesis
    proof (cases "n < 10")
      case True
      with mt 1(2) show ?thesis
        using digit_inj[of m n] by (simp add: dec.simps[of m] dec.simps[of n])
    next
      case False
      with mt 1(2) dec_nonempty[of "n div 10"] show ?thesis
        by (simp add: dec.simps[of m] dec.simps[of n])
    qed
  next
    case mf: False
    show ?thesis
    proof (cases "n < 10")
      case True
      with mf 1(2) dec_nonempty[of "m div 10"] show ?thesis
        by (simp add: dec.simps[of m] dec.simps[of n])
    next
      case False
      with mf 1(2) have a: "dec (m div 10) = dec (n div 10)" and b: "digit (m mod 10) = digit (n mod 10)"
        by (simp_all add: dec.simps[of m] dec.simps[of n])
      from 1(1)[OF mf a] have "m div 10 = n div 10" .
      moreover from b have "m mod 10 = n mod 10" using digit_inj[of "m mod 10" "n mod 10"] by simp
      ultimately show ?thesis by (metis div_mult_mod_eq)
    qed
  qed
qed

lemma split_last_sep:
  assumes "a @ u # x = b @ u # y" and "u \<notin> set x" and "u \<notin> set y"
  shows "x = y"
proof -
  from assms(1) have "rev (a @ u # x) = rev (b @ u # y)" by simp
  then have e: "rev x @ u # rev a = rev y @ u # rev b" by simp
  have "takeWhile (\<lambda>c. c \<noteq> u) (rev x @ u # rev a) = rev x"
    using assms(2) by (subst takeWhile_append2) auto
  moreover have "takeWhile (\<lambda>c. c \<noteq> u) (rev y @ u # rev b) = rev y"
    using assms(3) by (subst takeWhile_append2) auto
  ultimately have "rev x = rev y" using e by simp
  then show ?thesis by simp
qed

lemma alertKey_inj: "alertKey t i = alertKey t' j \<Longrightarrow> i = j"
proof -
  assume "alertKey t i = alertKey t' j"
  then have "t @ CHR ''_'' # dec i = t' @ CHR ''_'' # dec j" by (simp add: alertKey_def)
  then have "dec i = dec j" using split_last_sep dec_no_underscore by metis
  then show ?thesis by (rule dec_inj)
qed

section \<open>Properties of the evaluation loop\<close>

lemma loop_thrown_calls:
  "thrown (checkAlerts_loop thr nm s idx as trig) \<Longrightarrow>
   calls (checkAlerts_loop thr nm s idx as trig) \<noteq> []
   \<and> thr (last (calls (checkAlerts_loop thr nm s idx as trig)))"
  by (induction as arbitrary: idx trig) (auto simp: Let_def split: if_splits)

lemma loop_result:
  "result (checkAlerts_loop thr nm s idx as trig)
     = trig @ map n_key (returned (checkAlerts_loop thr nm s idx as trig))"
  by (induction as arbitrary: idx trig) (auto simp: Let_def n_key_def returned_def dest: loop_thrown_calls)

lemma loop_distinct:
  "distinct trig \<Longrightarrow> distinct (result (checkAlerts_loop thr nm s idx as trig))"
  by (induction as arbitrary: idx trig) (simp_all add: Let_def)

lemma loop_mono: "set trig \<subseteq> set (result (checkAlerts_loop thr nm s idx as trig))"
  by (subst loop_result) simp

lemma loop_count:
  "k \<in> set trig \<Longrightarrow>
   count_list (result (checkAlerts_loop thr nm s idx as trig)) k = count_list trig k"
proof (induction as arbitrary: idx trig)
  case Nil
  then show ?case by simp
next
  case (Cons a as)
  show ?case
  proof (cases "alert_enabled a \<and> alertKey (alert_type a) idx \<notin> set trig \<and> fst (switch_type a s)")
    case True
    with Cons.prems have ne: "alertKey (alert_type a) idx \<noteq> k" by auto
    from Cons.prems have "k \<in> set (trig @ [alertKey (alert_type a) idx])" by simp
    from Cons.IH[OF this, of "Suc idx"] ne True show ?thesis by (simp add: Let_def)
  next
    case False
    with Cons.IH[OF Cons.prems, of "Suc idx"] show ?thesis by auto
  qed
qed

lemma loop_called_only_if:
  "i \<in> n_index ` set (calls (checkAlerts_loop thr nm s idx as trig)) \<Longrightarrow>
     idx \<le> i \<and> i < idx + length as \<and> alert_enabled (as ! (i - idx)) \<and>
     alertKey (alert_type (as ! (i - idx))) i \<notin> set trig \<and> fst (switch_type (as ! (i - idx)) s)"
proof (induction as arbitrary: idx trig)
  case Nil
  then show ?case by simp
next
  case (Cons a as)
  show ?case
  proof (cases "i = idx")
    case True
    with Cons.prems show ?thesis
      using Cons.IH[of "Suc idx"] by (auto simp: Let_def split: if_splits)
  next
    case False
    have "i \<in> n_index ` set (calls (checkAlerts_loop thr nm s (Suc idx) as t)) \<Longrightarrow>
       Suc idx \<le> i \<and> i < Suc idx + length as \<and> alert_enabled (as ! (i - Suc idx)) \<and>
       alertKey (alert_type (as ! (i - Suc idx))) i \<notin> set t
       \<and> fst (switch_type (as ! (i - Suc idx)) s)" for t
      by (rule Cons.IH)
    moreover have "Suc idx \<le> i \<Longrightarrow> (a # as) ! (i - idx) = as ! (i - Suc idx)"
      by (simp add: Suc_diff_le)
    ultimately show ?thesis
      using Cons.prems False by (fastforce simp: Let_def split: if_splits)
  qed
qed

lemma loop_called_iff:
  "i \<in> n_index ` set (calls (checkAlerts_loop (\<lambda>n. False) nm s idx as trig)) \<longleftrightarrow>
     idx \<le> i \<and> i < idx + length as \<and> alert_enabled (as ! (i - idx)) \<and>
     alertKey (alert_type (as ! (i - idx))) i \<notin> set trig \<and> fst (switch_type (as ! (i - idx)) s)"
proof (induction as arbitrary: idx trig)
  case Nil
  then show ?case by simp
next
  case (Cons a as)
  have nth: "Suc idx \<le> i \<Longrightarrow> (a # as) ! (i - idx) = as ! (i - Suc idx)" for i
    by (simp add: Suc_diff_le)
  show ?case
  proof (cases "i = idx")
    case True
    then show ?thesis using Cons.IH[of "Suc idx"] by (auto simp: Let_def)
  next
    case False
    show ?thesis
    proof (cases "idx < i")
      case True
      then have k: "alertKey t i \<noteq> alertKey t' idx" for t t'
        using alertKey_inj by blast
      from True have n: "(a # as) ! (i - idx) = as ! (i - Suc idx)" using nth by simp
      from True show ?thesis
        using Cons.IH[of "Suc idx"] k by (auto simp: Let_def n)
    next
      case f: False
      then show ?thesis using Cons.IH[of "Suc idx"] by (auto simp: Let_def)
    qed
  qed
qed

lemma loop_not_thrown [simp]:
  "\<not> thrown (checkAlerts_loop (\<lambda>n. False) nm s idx as trig)"
  by (induction as arbitrary: idx trig) (simp_all add: Let_def)

lemma loop_index_lower:
  "n \<in> set (calls (checkAlerts_loop thr nm s idx as trig)) \<Longrightarrow> idx \<le> n_index n"
  using loop_called_only_if[of "n_index n" thr nm s idx as trig] by blast

lemma loop_index_distinct:
  "distinct (map n_index (calls (checkAlerts_loop thr nm s idx as trig)))"
proof (induction as arbitrary: idx trig)
  case Nil
  then show ?case by simp
next
  case (Cons a as)
  have "idx \<notin> n_index ` set (calls (checkAlerts_loop thr nm s (Suc idx) as t))" for t
    using loop_index_lower[of _ thr nm s "Suc idx" as t] by fastforce
  with Cons show ?case by (simp add: Let_def)
qed

lemma loop_after:
  "idx \<le> i \<Longrightarrow> i < idx + length as \<Longrightarrow> alert_enabled (as ! (i - idx)) \<Longrightarrow>
   fst (switch_type (as ! (i - idx)) s) \<Longrightarrow>
   alertKey (alert_type (as ! (i - idx))) i \<in> set (result (checkAlerts_loop (\<lambda>n. False) nm s idx as trig))"
proof (induction as arbitrary: idx trig)
  case Nil
  then show ?case by simp
next
  case (Cons a as)
  show ?case
  proof (cases "i = idx")
    case True
    with Cons.prems show ?thesis
      using loop_mono[of trig "\<lambda>n. False" nm s "Suc idx" as]
        loop_mono[of "trig @ [alertKey (alert_type a) idx]" "\<lambda>n. False" nm s "Suc idx" as]
      by (auto simp: Let_def)
  next
    case False
    with Cons.prems have lt: "Suc idx \<le> i" by simp
    then have n: "(a # as) ! (i - idx) = as ! (i - Suc idx)" by (simp add: Suc_diff_le)
    from Cons.prems lt have b: "i < Suc idx + length as" by simp
    from Cons.prems n have e: "alert_enabled (as ! (i - Suc idx))"
      and c: "fst (switch_type (as ! (i - Suc idx)) s)" by simp_all
    from Cons.IH[OF lt b e c] show ?thesis by (simp add: Let_def n)
  qed
qed

lemma checkAlerts_alerts [simp]: "alerts (result (checkAlerts thr it q)) = alerts it"
  by (simp add: checkAlerts_def Let_def)

lemma checkAlerts_stock_code [simp]:
  "stock_code (result (checkAlerts thr w s)) = stock_code w"
  by (simp add: checkAlerts_def Let_def)

lemma checkAlerts_not_thrown [simp]: "\<not> thrown (checkAlerts (\<lambda>n. False) it q)"
  by (simp add: checkAlerts_def Let_def)

lemma checkAlerts_triggered:
  "triggered (result (checkAlerts thr it q))
     = triggered it @ map n_key (returned (checkAlerts thr it q))"
  using loop_result[of thr "stock_name it" q 0 "alerts it" "triggered it"]
  by (simp add: checkAlerts_def Let_def returned_def)

lemma checkAlerts_called_only_if:
  "i \<in> n_index ` set (calls (checkAlerts thr it q)) \<Longrightarrow>
     i < length (alerts it) \<and> alert_enabled (alerts it ! i) \<and>
     alertKey (alert_type (alerts it ! i)) i \<notin> set (triggered it) \<and>
     fst (switch_type (alerts it ! i) q)"
  using loop_called_only_if[of i thr "stock_name it" q 0 "alerts it" "triggered it"]
  by (simp add: checkAlerts_def Let_def)

lemma checkAlerts_called_iff:
  "i \<in> n_index ` set (calls (checkAlerts (\<lambda>n. False) it q)) \<longleftrightarrow>
     i < length (alerts it) \<and> alert_enabled (alerts it ! i) \<and>
     alertKey (alert_type (alerts it ! i)) i \<notin> set (triggered it) \<and>
     fst (switch_type (alerts it ! i) q)"
  using loop_called_iff[of i "stock_name it" q 0 "alerts it" "triggered it"]
  by (simp add: checkAlerts_def Let_def)

lemma checkAlerts_after:
  "i < length (alerts it) \<Longrightarrow> alert_enabled (alerts it ! i) \<Longrightarrow>
   fst (switch_type (alerts it ! i) q) \<Longrightarrow>
   alertKey (alert_type (alerts it ! i)) i
     \<in> set (triggered (result (checkAlerts (\<lambda>n. False) it q)))"
  using loop_after[of 0 i "alerts it" q "stock_name it" "triggered it"]
  by (simp add: checkAlerts_def Let_def)

lemma checkAlerts_index_distinct: "distinct (map n_index (calls (checkAlerts thr it q)))"
  using loop_index_distinct[of thr "stock_name it" q 0 "alerts it" "triggered it"]
  by (simp add: checkAlerts_def Let_def)

lemma checkAlerts_count:
  "k \<in> set (triggered it) \<Longrightarrow>
   count_list (triggered (result (checkAlerts thr it q))) k = count_list (triggered it) k"
  using loop_count[of k "triggered it" thr "stock_name it" q 0 "alerts it"]
  by (simp add: checkAlerts_def Let_def)

lemma checkAlerts_distinct:
  "distinct (triggered w) \<Longrightarrow> distinct (triggered (result (checkAlerts thr w s)))"
  using loop_distinct[of "triggered w" thr "stock_name w" s 0 "alerts w"]
  by (simp add: checkAlerts_def Let_def)

lemma polls_silent:
  "alertKey (alert_type (alerts it ! i)) i \<in> set (triggered it) \<Longrightarrow>
   map (\<lambda>ns. count_list (map n_index ns) i) (polls thr it qs) = replicate (length qs) 0"
proof (induction qs arbitrary: it)
  case Nil
  then show ?case by simp
next
  case (Cons q qs)
  from Cons.prems have "i \<notin> n_index ` set (calls (checkAlerts thr it q))"
    using checkAlerts_called_only_if[of i thr it q] by blast
  then have z: "count_list (map n_index (calls (checkAlerts thr it q))) i = 0"
    by simp
  from Cons.prems have "alertKey (alert_type (alerts (result (checkAlerts thr it q)) ! i)) i
      \<in> set (triggered (result (checkAlerts thr it q)))"
    by (simp add: checkAlerts_triggered)
  from Cons.IH[OF this] z show ?case by simp
qed

lemma count_list_distinct_one:
  "distinct xs \<Longrightarrow> x \<in> set xs \<Longrightarrow> count_list xs x = 1"
  by (induction xs) auto

section \<open>Properties of the manager and of a poll\<close>

lemma dec_0: "dec 0 = ''0''"
  by code_simp

lemma check_items_length [simp]: "length (result (check_items thr wl s)) = length wl"
  by (induction wl) (simp_all add: Let_def)

lemma check_items_not_thrown [simp]: "\<not> thrown (check_items (\<lambda>n. False) wl s)"
  by (induction wl) (simp_all add: Let_def)

lemma check_items_nth:
  "k < length wl \<Longrightarrow>
   result (check_items (\<lambda>n. False) wl s) ! k =
     (if stock_code (wl ! k) = code s then result (checkAlerts (\<lambda>n. False) (wl ! k) s)
      else wl ! k)"
proof (induction wl arbitrary: k)
  case Nil
  then show ?case by simp
next
  case (Cons w ws)
  then show ?case by (cases k) (simp_all add: Let_def)
qed

lemma check_stocks_length [simp]: "length (result (check_stocks thr wl ss)) = length wl"
  by (induction ss arbitrary: wl) (simp_all add: Let_def)

lemma check_stocks_not_thrown [simp]: "\<not> thrown (check_stocks (\<lambda>n. False) wl ss)"
  by (induction ss arbitrary: wl) (simp_all add: Let_def)

lemma check_stocks_nth:
  "k < length wl \<Longrightarrow>
   result (check_stocks (\<lambda>n. False) wl ss) ! k =
     foldl (\<lambda>w s. result (checkAlerts (\<lambda>n. False) w s)) (wl ! k)
       (filter (\<lambda>s. code s = stock_code (wl ! k)) ss)"
proof (induction ss arbitrary: wl)
  case Nil
  then show ?case by simp
next
  case (Cons s ss)
  from Cons.prems have k: "k < length (result (check_items (\<lambda>n. False) wl s))" by simp
  show ?case
    using Cons.IH[OF k] Cons.prems
    by (auto simp: Let_def check_items_nth)
qed

lemma check_items_distinct:
  "list_all (\<lambda>w. distinct (triggered w)) wl \<Longrightarrow>
   list_all (\<lambda>w. distinct (triggered w)) (result (check_items thr wl s))"
  by (induction wl) (simp_all add: Let_def checkAlerts_distinct)

lemma check_stocks_distinct:
  "list_all (\<lambda>w. distinct (triggered w)) wl \<Longrightarrow>
   list_all (\<lambda>w. distinct (triggered w)) (result (check_stocks thr wl ss))"
  by (induction ss arbitrary: wl) (simp_all add: Let_def check_items_distinct)

lemma update_distinct:
  "list_all (\<lambda>w. distinct (triggered w)) wl \<Longrightarrow>
   list_all (\<lambda>w. distinct (triggered w)) (update wl i al)"
  by (induction wl) simp_all

lemma apply_operation_distinct:
  assumes "list_all (\<lambda>w. distinct (triggered w)) wl"
  shows "list_all (\<lambda>w. distinct (triggered w)) (apply_operation wl op)"
proof (cases op)
  case (Add st al now_ms rnd ts)
  with assms show ?thesis by (simp add: add_def Let_def)
next
  case (Update i al)
  with assms show ?thesis by (simp add: update_distinct)
next
  case (Remove i)
  with assms show ?thesis by (simp add: remove_def list_all_iff)
next
  case ResetTriggered
  then show ?thesis by (simp add: resetTriggered_def list_all_iff)
next
  case (Poll thr ss)
  with assms show ?thesis by (simp add: check_stocks_distinct)
next
  case (CheckAlerts thr k s)
  with assms show ?thesis
    by (auto simp: list_all_length nth_list_update checkAlerts_distinct)
qed

lemma apply_operations_distinct:
  "list_all (\<lambda>w. distinct (triggered w)) (apply_operations ops)"
  unfolding apply_operations_def
  by (induction ops rule: rev_induct) (simp_all add: apply_operation_distinct)

lemma update_get:
  "get wl i = Some it \<Longrightarrow>
     get (update wl i nr) i = Some (it\<lparr>alerts := nr\<rparr>) \<and>
     (\<exists>k<length wl. wl ! k = it \<and> update wl i nr = wl[k := it\<lparr>alerts := nr\<rparr>])"
proof (induction wl)
  case Nil
  then show ?case by (simp add: get_def)
next
  case (Cons w ws)
  show ?case
  proof (cases "item_id w = i")
    case True
    with Cons.prems have "w = it" by (simp add: get_def)
    with True show ?thesis by (auto simp: get_def)
  next
    case False
    with Cons.prems have "get ws i = Some it" by (simp add: get_def)
    from Cons.IH[OF this] obtain k where g: "get (update ws i nr) i = Some (it\<lparr>alerts := nr\<rparr>)"
      and k: "k < length ws" "ws ! k = it" "update ws i nr = ws[k := it\<lparr>alerts := nr\<rparr>]"
      by blast
    from False g have "get (update (w # ws) i nr) i = Some (it\<lparr>alerts := nr\<rparr>)"
      by (simp add: get_def)
    moreover from False k have "Suc k < length (w # ws) \<and> (w # ws) ! Suc k = it \<and>
        update (w # ws) i nr = (w # ws)[Suc k := it\<lparr>alerts := nr\<rparr>]"
      by simp
    ultimately show ?thesis by blast
  qed
qed

lemma check_settle_failure:
  "outcome \<in> {FetchRejected, JsonRejected, NotAnArray} \<Longrightarrow>
   check_settle thr k outcome now p =
     p\<lparr>in_flight := take k (in_flight p) @ drop (Suc k) (in_flight p),
       lastCheckTime := (if outcome = NotAnArray then Some now else lastCheckTime p),
       display := CheckFailed\<rparr>"
  by (auto simp: check_settle_def Let_def)

section \<open>The evaluation when no call of notify throws\<close>

text \<open>
  With a \<^verbatim>\<open>notify\<close> that returns at every call, an enabled rule whose key is not in the
  ledger and whose condition holds at each of the consecutive polls \<open>q0 # qs\<close> is
  notified once, at the first poll. A rule whose key is in the ledger is never
  notified and its key is never pushed again, whatever \<^verbatim>\<open>notify\<close> does.
\<close>

lemma no_double_fire_when_notify_returns:
  "(i < length (alerts it) \<and> alert_enabled (alerts it ! i) \<and>
    alertKey (alert_type (alerts it ! i)) i \<in> set (triggered it) \<longrightarrow>
      i \<notin> n_index ` set (calls (checkAlerts thr it q)) \<and>
      count_list (triggered (result (checkAlerts thr it q)))
          (alertKey (alert_type (alerts it ! i)) i)
        = count_list (triggered it) (alertKey (alert_type (alerts it ! i)) i))
   \<and> (i < length (alerts it) \<and> alert_enabled (alerts it ! i) \<and>
      alertKey (alert_type (alerts it ! i)) i \<notin> set (triggered it) \<and>
      (\<forall>p \<in> set (q0 # qs). fst (switch_type (alerts it ! i) p)) \<longrightarrow>
        map (\<lambda>ns. count_list (map n_index ns) i) (polls (\<lambda>n. False) it (q0 # qs))
          = 1 # replicate (length qs) 0)"
proof (intro conjI impI)
  assume a: "i < length (alerts it) \<and> alert_enabled (alerts it ! i) \<and>
    alertKey (alert_type (alerts it ! i)) i \<in> set (triggered it)"
  then show "i \<notin> n_index ` set (calls (checkAlerts thr it q))"
    using checkAlerts_called_only_if[of i thr it q] by blast
  from a show "count_list (triggered (result (checkAlerts thr it q)))
          (alertKey (alert_type (alerts it ! i)) i)
        = count_list (triggered it) (alertKey (alert_type (alerts it ! i)) i)"
    by (simp add: checkAlerts_count)
next
  assume b: "i < length (alerts it) \<and> alert_enabled (alerts it ! i) \<and>
      alertKey (alert_type (alerts it ! i)) i \<notin> set (triggered it) \<and>
      (\<forall>p \<in> set (q0 # qs). fst (switch_type (alerts it ! i) p))"
  then have "i \<in> set (map n_index (calls (checkAlerts (\<lambda>n. False) it q0)))"
    by (simp add: checkAlerts_called_iff)
  then have one: "count_list (map n_index (calls (checkAlerts (\<lambda>n. False) it q0))) i = 1"
    using checkAlerts_index_distinct[of "\<lambda>n. False" it q0]
    by (rule count_list_distinct_one[rotated])
  from b have "alertKey (alert_type (alerts (result (checkAlerts (\<lambda>n. False) it q0)) ! i)) i
      \<in> set (triggered (result (checkAlerts (\<lambda>n. False) it q0)))"
    by (simp add: checkAlerts_after)
  from polls_silent[OF this, of "\<lambda>n. False" qs] one
  show "map (\<lambda>ns. count_list (map n_index ns) i) (polls (\<lambda>n. False) it (q0 # qs))
          = 1 # replicate (length qs) 0"
    by simp
qed

text \<open>
  With a \<^verbatim>\<open>notify\<close> that returns at every call, the rule at position \<open>i\<close> is
  notified if and only if it exists, is enabled, its key is not in the ledger when the
  call begins, and its condition holds according to the table.
\<close>

lemma evaluator_when_notify_returns:
  "i \<in> n_index ` set (calls (checkAlerts (\<lambda>n. False) it q)) \<longleftrightarrow>
     i < length (alerts it) \<and> alert_enabled (alerts it ! i) \<and>
     alertKey (alert_type (alerts it ! i)) i \<notin> set (triggered it) \<and>
     (alert_type (alerts it ! i) = ''price_above'' \<and> price q \<ge> alert_value (alerts it ! i) \<or>
      alert_type (alerts it ! i) = ''price_below'' \<and> price q \<le> alert_value (alerts it ! i) \<or>
      alert_type (alerts it ! i) = ''change_percent_above''
        \<and> change_percent q \<ge> alert_value (alerts it ! i) \<or>
      alert_type (alerts it ! i) = ''change_percent_below''
        \<and> change_percent q \<le> alert_value (alerts it ! i) \<or>
      alert_type (alerts it ! i) = ''bid_ask_ratio_above''
        \<and> bid_ask_ratio q \<ge> alert_value (alerts it ! i))"
proof -
  have "fst (switch_type a q) \<longleftrightarrow>
     (alert_type a = ''price_above'' \<and> price q \<ge> alert_value a \<or>
      alert_type a = ''price_below'' \<and> price q \<le> alert_value a \<or>
      alert_type a = ''change_percent_above'' \<and> change_percent q \<ge> alert_value a \<or>
      alert_type a = ''change_percent_below'' \<and> change_percent q \<le> alert_value a \<or>
      alert_type a = ''bid_ask_ratio_above'' \<and> bid_ask_ratio q \<ge> alert_value a)" for a
    by (simp add: switch_type_def)
  then show ?thesis by (simp only: checkAlerts_called_iff)
qed

text \<open>
  On a non-empty watchlist a poll issues one request, and the set of its codes is the
  set of the distinct stock codes of the items (the request lists one code for each
  item, so a shared code is listed again). With a \<^verbatim>\<open>notify\<close> that returns at every
  call, an answer that is an array of quotes has every item evaluated against each
  quote of its code, in the order of the answer, and against no other quote.
\<close>

lemma fan_out_when_notify_returns:
  "watchlist p \<noteq> [] \<longrightarrow>
     (\<exists>codes. in_flight (check_begin p) = in_flight p @ [codes]
        \<and> set codes = set (remdups (map stock_code (watchlist p))))
     \<and> length (watchlist (check (\<lambda>n. False) (Stocks ss) now p)) = length (watchlist p)
     \<and> (\<forall>k<length (watchlist p).
          watchlist (check (\<lambda>n. False) (Stocks ss) now p) ! k =
            foldl (\<lambda>w s. result (checkAlerts (\<lambda>n. False) w s)) (watchlist p ! k)
              (filter (\<lambda>s. code s = stock_code (watchlist p ! k)) ss))"
  by (auto simp: check_def check_begin_def check_settle_def Let_def check_stocks_nth)

text \<open>
  Whatever \<^verbatim>\<open>notify\<close> does, no ledger of a watchlist reached from the empty one holds
  a key twice, and an evaluation appends to the ledger exactly the keys of the calls of
  \<^verbatim>\<open>notify\<close> that returned.
\<close>

lemma ledger_distinct_and_returned_calls:
  "list_all (\<lambda>w. distinct (triggered w)) (apply_operations ops)
   \<and> (\<forall>k<length (apply_operations ops).
        triggered (result (checkAlerts thr (apply_operations ops ! k) s))
          = triggered (apply_operations ops ! k)
              @ map n_key (returned (checkAlerts thr (apply_operations ops ! k) s))
        \<and> distinct (triggered (result (checkAlerts thr (apply_operations ops ! k) s))))"
proof -
  have d: "list_all (\<lambda>w. distinct (triggered w)) (apply_operations ops)"
    by (rule apply_operations_distinct)
  then have "distinct (triggered (result (checkAlerts thr (apply_operations ops ! k) s)))"
    if "k < length (apply_operations ops)" for k
    using that by (simp add: list_all_length checkAlerts_distinct)
  with d show ?thesis by (simp add: checkAlerts_triggered)
qed

section \<open>The claims\<close>

subsection \<open>C1: no double fire\<close>

text \<open>
  Claim C1 says that a rule whose condition stays true over consecutive polls is
  notified at the first of them and at no later one. The code calls \<^verbatim>\<open>notify\<close>
  before it pushes the key, and \<^verbatim>\<open>notify\<close> is not protected against the notification
  interface throwing (the sound, next to it, is). Where it throws, the key is never
  recorded: with the rule \<^verbatim>\<open>price_above 100\<close> and a quote of 100 at two polls,
  \<^verbatim>\<open>notify\<close> is entered for the rule at the first poll and again at the second, and the
  ledger is still empty.
\<close>

theorem no_double_fire_notify_throws:
  "map (map n_index) (polls (\<lambda>n. True)
      \<lparr>item_id = ''w1'', stock_code = ''2330'', stock_name = ''TSMC'',
       alerts = [\<lparr>alert_type = ''price_above'', alert_value = 100, alert_enabled = True\<rparr>],
       triggered = [], created_at = ''t''\<rparr>
      [\<lparr>code = ''2330'', name = ''TSMC'', price = 100, change_percent = 0, bid_ask_ratio = 1\<rparr>,
       \<lparr>code = ''2330'', name = ''TSMC'', price = 100, change_percent = 0, bid_ask_ratio = 1\<rparr>])
     = [[0], [0]]
   \<and> thrown (checkAlerts (\<lambda>n. True)
      \<lparr>item_id = ''w1'', stock_code = ''2330'', stock_name = ''TSMC'',
       alerts = [\<lparr>alert_type = ''price_above'', alert_value = 100, alert_enabled = True\<rparr>],
       triggered = [], created_at = ''t''\<rparr>
      \<lparr>code = ''2330'', name = ''TSMC'', price = 100, change_percent = 0, bid_ask_ratio = 1\<rparr>)
   \<and> triggered (result (checkAlerts (\<lambda>n. True)
      \<lparr>item_id = ''w1'', stock_code = ''2330'', stock_name = ''TSMC'',
       alerts = [\<lparr>alert_type = ''price_above'', alert_value = 100, alert_enabled = True\<rparr>],
       triggered = [], created_at = ''t''\<rparr>
      \<lparr>code = ''2330'', name = ''TSMC'', price = 100, change_percent = 0, bid_ask_ratio = 1\<rparr>)) = []"
  by code_simp

subsection \<open>C2: the evaluator\<close>

text \<open>
  Claim C2 says that the rule at a position fires if and only if it is enabled, its
  key is not in the ledger and its condition holds. In the code an exception of
  \<^verbatim>\<open>notify\<close> at an earlier rule leaves \<^verbatim>\<open>forEach\<close>: with the rules
  \<^verbatim>\<open>price_above 100\<close> and \<^verbatim>\<open>price_below 1000\<close> and a quote of 100, \<^verbatim>\<open>notify\<close> throws
  at position 0 and position 1 is never reached, although its rule is enabled, its key
  is not in the ledger and its condition holds.
\<close>

theorem evaluator_notify_throws:
  "map n_index (calls (checkAlerts (\<lambda>n. True)
      \<lparr>item_id = ''w1'', stock_code = ''2330'', stock_name = ''TSMC'',
       alerts = [\<lparr>alert_type = ''price_above'', alert_value = 100, alert_enabled = True\<rparr>,
                 \<lparr>alert_type = ''price_below'', alert_value = 1000, alert_enabled = True\<rparr>],
       triggered = [], created_at = ''t''\<rparr>
      \<lparr>code = ''2330'', name = ''TSMC'', price = 100, change_percent = 0, bid_ask_ratio = 1\<rparr>)) = [0]
   \<and> alert_enabled (alerts
      \<lparr>item_id = ''w1'', stock_code = ''2330'', stock_name = ''TSMC'',
       alerts = [\<lparr>alert_type = ''price_above'', alert_value = 100, alert_enabled = True\<rparr>,
                 \<lparr>alert_type = ''price_below'', alert_value = 1000, alert_enabled = True\<rparr>],
       triggered = [], created_at = ''t''\<rparr> ! 1)
   \<and> alertKey ''price_below'' 1 \<notin> set (triggered
      \<lparr>item_id = ''w1'', stock_code = ''2330'', stock_name = ''TSMC'',
       alerts = [\<lparr>alert_type = ''price_above'', alert_value = 100, alert_enabled = True\<rparr>,
                 \<lparr>alert_type = ''price_below'', alert_value = 1000, alert_enabled = True\<rparr>],
       triggered = [], created_at = ''t''\<rparr>)
   \<and> fst (switch_type (alerts
      \<lparr>item_id = ''w1'', stock_code = ''2330'', stock_name = ''TSMC'',
       alerts = [\<lparr>alert_type = ''price_above'', alert_value = 100, alert_enabled = True\<rparr>,
                 \<lparr>alert_type = ''price_below'', alert_value = 1000, alert_enabled = True\<rparr>],
       triggered = [], created_at = ''t''\<rparr> ! 1)
      \<lparr>code = ''2330'', name = ''TSMC'', price = 100, change_percent = 0, bid_ask_ratio = 1\<rparr>)"
  by code_simp

subsection \<open>C3: market hours\<close>

text \<open>
  \<^verbatim>\<open>isMarketHours\<close> reads the day, the hour and the minute, never the seconds: on a
  Wednesday at 13:30:01 it answers true, where claim C3 says false.
\<close>

theorem market_hours_counterexample:
  "isMarketHours \<lparr>day = 3, hour = 13, minute = 30, second = 1\<rparr>"
  by (simp add: isMarketHours_def)

text \<open>
  Claim C3, amended. On a clock with minutes and seconds below 60, \<^verbatim>\<open>isMarketHours\<close>
  is true exactly when the day is Monday to Friday and the time lies from 09:00:00 up
  to, and not including, 13:31:00: the window is closed at the granularity of minutes, so
  the whole minute 13:30 belongs to it. It is true at 09:00:00 and at 13:30:00 on a
  Wednesday, false at 08:59:59 and at 13:31:00, and false at every time on a Saturday or
  a Sunday.
\<close>

theorem market_hours_minutes:
  "(minute now < 60 \<and> second now < 60 \<longrightarrow>
      (isMarketHours now \<longleftrightarrow>
         1 \<le> day now \<and> day now \<le> 5 \<and>
         9 * 3600 \<le> hour now * 3600 + minute now * 60 + second now \<and>
         hour now * 3600 + minute now * 60 + second now < 13 * 3600 + 31 * 60))
   \<and> isMarketHours \<lparr>day = 3, hour = 9, minute = 0, second = 0\<rparr>
   \<and> isMarketHours \<lparr>day = 3, hour = 13, minute = 30, second = 0\<rparr>
   \<and> \<not> isMarketHours \<lparr>day = 3, hour = 8, minute = 59, second = 59\<rparr>
   \<and> \<not> isMarketHours \<lparr>day = 3, hour = 13, minute = 31, second = 0\<rparr>
   \<and> \<not> isMarketHours \<lparr>day = 6, hour = h, minute = m, second = s\<rparr>
   \<and> \<not> isMarketHours \<lparr>day = 0, hour = h, minute = m, second = s\<rparr>"
proof -
  have "isMarketHours now \<longleftrightarrow>
         1 \<le> day now \<and> day now \<le> 5 \<and>
         9 * 3600 \<le> hour now * 3600 + minute now * 60 + second now \<and>
         hour now * 3600 + minute now * 60 + second now < 13 * 3600 + 31 * 60"
    if "minute now < 60" "second now < 60"
    using that unfolding isMarketHours_def by (simp; arith)
  then show ?thesis by (simp add: isMarketHours_def)
qed

theorem market_hours_minutes_witness:
  "isMarketHours \<lparr>day = 3, hour = 13, minute = 30, second = 59\<rparr>
   \<and> \<not> isMarketHours \<lparr>day = 3, hour = 13, minute = 31, second = 0\<rparr>"
  using market_hours_minutes[of "\<lparr>day = 3, hour = 13, minute = 30, second = 59\<rparr>"]
  by simp

subsection \<open>C4: a failed fetch\<close>

text \<open>
  Claim C4. When the request of a poll fails (\<^verbatim>\<open>fetch\<close> rejects, the body is no
  JSON, or the body is no array), the poll ends with the check-failed text on display,
  the watchlist, and with it the ledger of every item, is what it was before the poll,
  nothing is notified, and the poller keeps running: \<^verbatim>\<open>isRunning\<close> and the interval
  timer are untouched. The same holds when any request in flight settles with a
  failure.
\<close>

theorem failed_fetch_atomic:
  "outcome \<in> {FetchRejected, JsonRejected, NotAnArray} \<and> watchlist p \<noteq> [] \<longrightarrow>
     display (check thr outcome now p) = CheckFailed
     \<and> watchlist (check thr outcome now p) = watchlist p
     \<and> map triggered (watchlist (check thr outcome now p)) = map triggered (watchlist p)
     \<and> notified (check thr outcome now p) = notified p
     \<and> isRunning (check thr outcome now p) = isRunning p
     \<and> interval (check thr outcome now p) = interval p
     \<and> in_flight (check thr outcome now p) = in_flight p
     \<and> display (check_settle thr k outcome now p) = CheckFailed
     \<and> watchlist (check_settle thr k outcome now p) = watchlist p
     \<and> notified (check_settle thr k outcome now p) = notified p
     \<and> isRunning (check_settle thr k outcome now p) = isRunning p
     \<and> interval (check_settle thr k outcome now p) = interval p"
  by (auto simp: check_settle_failure check_def check_begin_def)

theorem failed_fetch_atomic_witness:
  "display (check (\<lambda>n. False) FetchRejected \<lparr>day = 3, hour = 10, minute = 0, second = 0\<rparr>
     (new_polling
        [\<lparr>item_id = ''w1'', stock_code = ''2330'', stock_name = ''TSMC'',
          alerts = [\<lparr>alert_type = ''price_above'', alert_value = 100, alert_enabled = True\<rparr>],
          triggered = [], created_at = ''t''\<rparr>] Stopped)) = CheckFailed
   \<and> map triggered (watchlist (check (\<lambda>n. False) FetchRejected \<lparr>day = 3, hour = 10, minute = 0, second = 0\<rparr>
     (new_polling
        [\<lparr>item_id = ''w1'', stock_code = ''2330'', stock_name = ''TSMC'',
          alerts = [\<lparr>alert_type = ''price_above'', alert_value = 100, alert_enabled = True\<rparr>],
          triggered = [], created_at = ''t''\<rparr>] Stopped))) = [[]]"
  using failed_fetch_atomic[where outcome = FetchRejected and thr = "\<lambda>n. False" and k = 0
     and now = "\<lparr>day = 3, hour = 10, minute = 0, second = 0\<rparr>"
     and p = "new_polling
        [\<lparr>item_id = ''w1'', stock_code = ''2330'', stock_name = ''TSMC'',
          alerts = [\<lparr>alert_type = ''price_above'', alert_value = 100, alert_enabled = True\<rparr>],
          triggered = [], created_at = ''t''\<rparr>] Stopped"]
  by (simp add: new_polling_def)

subsection \<open>C5: update and get\<close>

text \<open>
  \<^verbatim>\<open>update\<close> does not touch the ledger, and the ledger may hold keys of positions
  that an earlier, longer rule list had. An item is added with two rules, both fire at a
  poll whose calls of \<^verbatim>\<open>notify\<close> return, the second rule is removed by an update: the ledger still holds the key of
  position 1. An update back to two rules makes position 1 a new position, and it is
  already fired, where claim C5 says that new positions start unfired.
\<close>

theorem update_new_position_counterexample:
  "apply_operations
     [Add \<lparr>code = ''2330'', name = ''TSMC'', price = 0, change_percent = 0, bid_ask_ratio = 0\<rparr>
        (Some [\<lparr>alert_type = ''price_above'', alert_value = 10, alert_enabled = True\<rparr>,
               \<lparr>alert_type = ''price_below'', alert_value = 1000, alert_enabled = True\<rparr>])
        0 ''k3x'' ''2026-01-01'',
      Poll (\<lambda>n. False) [\<lparr>code = ''2330'', name = ''TSMC'', price = 100, change_percent = 0,
             bid_ask_ratio = 1\<rparr>],
      Update ''watch_0_k3x''
        [\<lparr>alert_type = ''price_above'', alert_value = 10, alert_enabled = True\<rparr>]]
   = [\<lparr>item_id = ''watch_0_k3x'', stock_code = ''2330'', stock_name = ''TSMC'',
       alerts = [\<lparr>alert_type = ''price_above'', alert_value = 10, alert_enabled = True\<rparr>],
       triggered = [''price_above_0'', ''price_below_1''], created_at = ''2026-01-01''\<rparr>]
   \<and> fired (the (get (update
       [\<lparr>item_id = ''watch_0_k3x'', stock_code = ''2330'', stock_name = ''TSMC'',
         alerts = [\<lparr>alert_type = ''price_above'', alert_value = 10, alert_enabled = True\<rparr>],
         triggered = [''price_above_0'', ''price_below_1''], created_at = ''2026-01-01''\<rparr>]
       ''watch_0_k3x''
       [\<lparr>alert_type = ''price_above'', alert_value = 10, alert_enabled = True\<rparr>,
        \<lparr>alert_type = ''price_below'', alert_value = 1000, alert_enabled = True\<rparr>])
       ''watch_0_k3x'')) 1"
  by code_simp

text \<open>
  Claim C5, amended. For a stored item with a known id, \<^verbatim>\<open>update(id, newRules)\<close>
  followed by \<^verbatim>\<open>get(id)\<close> yields the item with its rules replaced by
  \<open>newRules\<close> and every other field, the ledger among them, unchanged; exactly one
  position of the watchlist changes. A position that both rule lists have, with the
  same rule type, keeps its fired or unfired state; a new position is fired exactly
  when its key is in the unchanged ledger.
\<close>

theorem update_round_trip:
  "get wl i = Some it \<Longrightarrow>
     get (update wl i newRules) i = Some (it\<lparr>alerts := newRules\<rparr>)
     \<and> (\<exists>k<length wl. wl ! k = it \<and> update wl i newRules = wl[k := it\<lparr>alerts := newRules\<rparr>])
     \<and> triggered (it\<lparr>alerts := newRules\<rparr>) = triggered it
     \<and> (\<forall>p. p < length (alerts it) \<and> p < length newRules
              \<and> alert_type (newRules ! p) = alert_type (alerts it ! p) \<longrightarrow>
            fired (it\<lparr>alerts := newRules\<rparr>) p = fired it p)
     \<and> (\<forall>p. length (alerts it) \<le> p \<and> p < length newRules \<longrightarrow>
            fired (it\<lparr>alerts := newRules\<rparr>) p
              = (alertKey (alert_type (newRules ! p)) p \<in> set (triggered it)))"
  using update_get[of wl i it newRules] by (simp add: fired_def)

theorem update_round_trip_witness:
  "get (update
      [\<lparr>item_id = ''w1'', stock_code = ''2330'', stock_name = ''TSMC'',
        alerts = [\<lparr>alert_type = ''price_above'', alert_value = 100, alert_enabled = True\<rparr>],
        triggered = [''price_above_0''], created_at = ''t''\<rparr>]
      ''w1'' [\<lparr>alert_type = ''price_above'', alert_value = 200, alert_enabled = True\<rparr>]) ''w1''
   = Some \<lparr>item_id = ''w1'', stock_code = ''2330'', stock_name = ''TSMC'',
        alerts = [\<lparr>alert_type = ''price_above'', alert_value = 200, alert_enabled = True\<rparr>],
        triggered = [''price_above_0''], created_at = ''t''\<rparr>
   \<and> fired \<lparr>item_id = ''w1'', stock_code = ''2330'', stock_name = ''TSMC'',
        alerts = [\<lparr>alert_type = ''price_above'', alert_value = 200, alert_enabled = True\<rparr>],
        triggered = [''price_above_0''], created_at = ''t''\<rparr> 0"
proof -
  have g: "get
      [\<lparr>item_id = ''w1'', stock_code = ''2330'', stock_name = ''TSMC'',
        alerts = [\<lparr>alert_type = ''price_above'', alert_value = 100, alert_enabled = True\<rparr>],
        triggered = [''price_above_0''], created_at = ''t''\<rparr>] ''w1''
    = Some \<lparr>item_id = ''w1'', stock_code = ''2330'', stock_name = ''TSMC'',
        alerts = [\<lparr>alert_type = ''price_above'', alert_value = 100, alert_enabled = True\<rparr>],
        triggered = [''price_above_0''], created_at = ''t''\<rparr>"
    by (simp add: get_def)
  have f: "fired \<lparr>item_id = ''w1'', stock_code = ''2330'', stock_name = ''TSMC'',
        alerts = [\<lparr>alert_type = ''price_above'', alert_value = 100, alert_enabled = True\<rparr>],
        triggered = [''price_above_0''], created_at = ''t''\<rparr> 0"
    by (simp add: fired_def alertKey_def dec_0)
  from update_round_trip[OF g,
      of "[\<lparr>alert_type = ''price_above'', alert_value = 200, alert_enabled = True\<rparr>]"] f
  show ?thesis by simp
qed

subsection \<open>C6: add\<close>

text \<open>
  \<^verbatim>\<open>add\<close> has no test of its arguments: with an empty rule list it creates and
  stores an item, where claim C6 says that it fails. The test for an empty rule list is
  made by its caller \<^verbatim>\<open>addWatchlistItem\<close> before the call.
\<close>

theorem add_empty_rules_counterexample:
  "add [] \<lparr>code = ''2330'', name = ''TSMC'', price = 0, change_percent = 0, bid_ask_ratio = 0\<rparr>
     (Some []) 0 ''k3x'' ''2026-01-01''
   = Inr (\<lparr>item_id = ''watch_0_k3x'', stock_code = ''2330'', stock_name = ''TSMC'', alerts = [],
           triggered = [], created_at = ''2026-01-01''\<rparr>,
          [\<lparr>item_id = ''watch_0_k3x'', stock_code = ''2330'', stock_name = ''TSMC'', alerts = [],
            triggered = [], created_at = ''2026-01-01''\<rparr>])"
  by (simp add: add_def dec_0 Let_def)

text \<open>
  Claim C6, amended. \<^verbatim>\<open>add\<close> never fails, whatever the rule list (also an empty
  one) and whatever the watchlist already holds (also an item of the same instrument):
  it returns the new item, which carries the given rules and an empty ledger, and
  appends it to the watchlist.
\<close>

theorem add_never_fails:
  "\<exists>it. add wl st (Some rules) now_ms rnd ts = Inr (it, wl @ [it])
     \<and> alerts it = rules \<and> triggered it = []
     \<and> stock_code it = code st \<and> stock_name it = name st \<and> created_at it = ts"
  by (simp add: add_def Let_def)

subsection \<open>C7: batching and fan-out\<close>

text \<open>
  Claim C7 says that a poll issues one request for the codes of the items and that,
  for each quote returned, every item of that code is evaluated. The request is as the
  claim says. The evaluation is cut short where \<^verbatim>\<open>notify\<close> throws: the exception
  leaves \<^verbatim>\<open>watchItems.forEach\<close> and \<^verbatim>\<open>stocks.forEach\<close> and is caught by the
  \<^verbatim>\<open>catch\<close> of \<^verbatim>\<open>check\<close>. Two items share the code 2330 and the answer holds one
  quote for 2330, at which the rule of each item holds: \<^verbatim>\<open>notify\<close> is called for the
  first item only and the poll ends as failed, although an evaluation of the second
  item would have called \<^verbatim>\<open>notify\<close> for its rule.
\<close>

theorem fan_out_notify_throws:
  "map (\<lambda>n. alert_type (n_alert n)) (notified (check (\<lambda>n. True)
      (Stocks [\<lparr>code = ''2330'', name = ''TSMC'', price = 100, change_percent = 0, bid_ask_ratio = 1\<rparr>])
      \<lparr>day = 3, hour = 10, minute = 0, second = 0\<rparr>
      (new_polling
        [\<lparr>item_id = ''w1'', stock_code = ''2330'', stock_name = ''TSMC'',
          alerts = [\<lparr>alert_type = ''price_above'', alert_value = 100, alert_enabled = True\<rparr>],
          triggered = [], created_at = ''t''\<rparr>,
         \<lparr>item_id = ''w2'', stock_code = ''2330'', stock_name = ''TSMC'',
          alerts = [\<lparr>alert_type = ''price_below'', alert_value = 100, alert_enabled = True\<rparr>],
          triggered = [], created_at = ''t''\<rparr>] Stopped)))
     = [''price_above'']
   \<and> display (check (\<lambda>n. True)
      (Stocks [\<lparr>code = ''2330'', name = ''TSMC'', price = 100, change_percent = 0, bid_ask_ratio = 1\<rparr>])
      \<lparr>day = 3, hour = 10, minute = 0, second = 0\<rparr>
      (new_polling
        [\<lparr>item_id = ''w1'', stock_code = ''2330'', stock_name = ''TSMC'',
          alerts = [\<lparr>alert_type = ''price_above'', alert_value = 100, alert_enabled = True\<rparr>],
          triggered = [], created_at = ''t''\<rparr>,
         \<lparr>item_id = ''w2'', stock_code = ''2330'', stock_name = ''TSMC'',
          alerts = [\<lparr>alert_type = ''price_below'', alert_value = 100, alert_enabled = True\<rparr>],
          triggered = [], created_at = ''t''\<rparr>] Stopped))
     = CheckFailed
   \<and> map (\<lambda>n. alert_type (n_alert n)) (calls (checkAlerts (\<lambda>n. True)
         \<lparr>item_id = ''w2'', stock_code = ''2330'', stock_name = ''TSMC'',
          alerts = [\<lparr>alert_type = ''price_below'', alert_value = 100, alert_enabled = True\<rparr>],
          triggered = [], created_at = ''t''\<rparr>
         \<lparr>code = ''2330'', name = ''TSMC'', price = 100, change_percent = 0, bid_ask_ratio = 1\<rparr>))
     = [''price_below'']"
  by code_simp

subsection \<open>C8: overlapping polls\<close>

text \<open>
  The callback of the interval timer calls \<^verbatim>\<open>check\<close> whenever the market is open;
  nothing records that a request is outstanding. After \<^verbatim>\<open>start\<close> and one timer tick,
  with no request settled in between, two requests are in flight, where claim C8 says
  that the tick is skipped.
\<close>

theorem overlapping_fetch_counterexample:
  "in_flight (run
      (new_polling
        [\<lparr>item_id = ''w1'', stock_code = ''2330'', stock_name = ''TSMC'',
          alerts = [\<lparr>alert_type = ''price_above'', alert_value = 100, alert_enabled = True\<rparr>],
          triggered = [], created_at = ''t''\<rparr>] Stopped)
      [Start, Tick \<lparr>day = 3, hour = 10, minute = 0, second = 0\<rparr>])
   = [[''2330''], [''2330'']]"
  by (simp add: run_def new_polling_def start_def tick_def check_begin_def isMarketHours_def)

text \<open>
  Claim C8, amended. While the timer is armed, a tick in market hours on a non-empty
  watchlist always issues a new request, whether or not earlier requests are still in
  flight: it is added to them, neither skipped nor queued. What is guarded is
  \<^verbatim>\<open>start\<close>: on a running poller it does nothing, so no second timer is armed.
\<close>

theorem tick_starts_fetch:
  "(interval p \<and> isMarketHours now \<and> watchlist p \<noteq> [] \<longrightarrow>
      in_flight (step p (Tick now)) = in_flight p @ [map stock_code (watchlist p)])
   \<and> (isRunning p \<longrightarrow> step p Start = p)"
  by (simp add: tick_def check_begin_def start_def)

theorem tick_starts_fetch_witness:
  "in_flight (step
      \<lparr>watchlist =
         [\<lparr>item_id = ''w1'', stock_code = ''2330'', stock_name = ''TSMC'',
           alerts = [\<lparr>alert_type = ''price_above'', alert_value = 100, alert_enabled = True\<rparr>],
           triggered = [], created_at = ''t''\<rparr>],
       interval = True, isRunning = True, lastCheckTime = None, display = Stopped,
       in_flight = [[''2330'']], notified = []\<rparr>
      (Tick \<lparr>day = 3, hour = 10, minute = 0, second = 0\<rparr>))
   = [[''2330''], [''2330'']]
   \<and> step
      \<lparr>watchlist =
         [\<lparr>item_id = ''w1'', stock_code = ''2330'', stock_name = ''TSMC'',
           alerts = [\<lparr>alert_type = ''price_above'', alert_value = 100, alert_enabled = True\<rparr>],
           triggered = [], created_at = ''t''\<rparr>],
       interval = True, isRunning = True, lastCheckTime = None, display = Stopped,
       in_flight = [[''2330'']], notified = []\<rparr> Start
   = \<lparr>watchlist =
         [\<lparr>item_id = ''w1'', stock_code = ''2330'', stock_name = ''TSMC'',
           alerts = [\<lparr>alert_type = ''price_above'', alert_value = 100, alert_enabled = True\<rparr>],
           triggered = [], created_at = ''t''\<rparr>],
       interval = True, isRunning = True, lastCheckTime = None, display = Stopped,
       in_flight = [[''2330'']], notified = []\<rparr>"
  (is "in_flight (step ?p (Tick ?n)) = _ \<and> _")
proof -
  have h: "interval ?p \<and> isMarketHours ?n \<and> watchlist ?p \<noteq> []" "isRunning ?p"
    by (simp_all add: isMarketHours_def)
  from tick_starts_fetch[of ?p ?n] h show ?thesis by simp
qed

subsection \<open>C9: reset\<close>

text \<open>
  Claim C9. \<^verbatim>\<open>resetTriggered\<close> leaves every item with an empty ledger, keeps the id,
  the stock code and name, the rules and the creation time of every item and the order
  of the items, and a second call changes nothing.
\<close>

theorem reset_semantics:
  "map triggered (resetTriggered wl) = replicate (length wl) []
   \<and> map (\<lambda>w. (item_id w, stock_code w, stock_name w, alerts w, created_at w)) (resetTriggered wl)
       = map (\<lambda>w. (item_id w, stock_code w, stock_name w, alerts w, created_at w)) wl
   \<and> resetTriggered (resetTriggered wl) = resetTriggered wl"
  by (simp add: resetTriggered_def map_replicate_const comp_def)

subsection \<open>C10: the ledger invariant\<close>

text \<open>
  Claim C10 says that no ledger ever holds a key twice and that every notification is
  paired with the appending of one new key. No ledger holds a key twice, whatever
  \<^verbatim>\<open>notify\<close> does. The pairing is broken where \<^verbatim>\<open>notify\<close> throws: on the item that
  \<^verbatim>\<open>add\<close> has just created, with the rule \<^verbatim>\<open>price_above 100\<close> and a quote of 100,
  \<^verbatim>\<open>notify\<close> is called for position 0 and the ledger stays empty.
\<close>

theorem ledger_pairing_notify_throws:
  "map n_index (calls (checkAlerts (\<lambda>n. True)
      (apply_operations
        [Add \<lparr>code = ''2330'', name = ''TSMC'', price = 0, change_percent = 0,
              bid_ask_ratio = 0\<rparr>
          (Some [\<lparr>alert_type = ''price_above'', alert_value = 100, alert_enabled = True\<rparr>])
          0 ''k3x'' ''2026-01-01''] ! 0)
      \<lparr>code = ''2330'', name = ''TSMC'', price = 100, change_percent = 0, bid_ask_ratio = 1\<rparr>)) = [0]
   \<and> triggered (result (checkAlerts (\<lambda>n. True)
      (apply_operations
        [Add \<lparr>code = ''2330'', name = ''TSMC'', price = 0, change_percent = 0,
              bid_ask_ratio = 0\<rparr>
          (Some [\<lparr>alert_type = ''price_above'', alert_value = 100, alert_enabled = True\<rparr>])
          0 ''k3x'' ''2026-01-01''] ! 0)
      \<lparr>code = ''2330'', name = ''TSMC'', price = 100, change_percent = 0, bid_ask_ratio = 1\<rparr>)) = []
   \<and> map triggered (apply_operations
        ([Add \<lparr>code = ''2330'', name = ''TSMC'', price = 0, change_percent = 0,
              bid_ask_ratio = 0\<rparr>
          (Some [\<lparr>alert_type = ''price_above'', alert_value = 100, alert_enabled = True\<rparr>])
          0 ''k3x'' ''2026-01-01'']
         @ [Poll (\<lambda>n. True)
              [\<lparr>code = ''2330'', name = ''TSMC'', price = 100, change_percent = 0, bid_ask_ratio = 1\<rparr>]])) = [[]]"
  by code_simp

end
